theory Spec2Isabelle
  imports Complex_Main
begin

section \<open>Cell values\<close>

text \<open>
  Embedding of \<^verbatim>\<open>taller3/transformadores_red.py\<close>: the cell cleaner
  \<^verbatim>\<open>LimpiarComillas._clean_cell\<close> and the header loop of
  \<^verbatim>\<open>LimpiarComillas.transform\<close>.

  A cell of a table is a missing value (NaN), a number, or a Python \<^verbatim>\<open>str\<close>. A
  string is a list of characters; the characters are the code points below 256, which
  hold every character the code tells apart (digits, period, comma, single quote, space
  and the other whitespace characters). A number is kept as the exact decimal value of
  the literal it was parsed from: rounding to a binary floating-point value and the
  bounds of its range are not modelled.
\<close>

datatype cell = Missing | Numeric rat | Textual string

section \<open>Python string primitives\<close>

text \<open>
  \<^verbatim>\<open>s.strip(chars)\<close> removes from both ends of \<open>s\<close> the longest run of characters
  that occur in \<open>chars\<close>.
\<close>

definition strip_chars :: "string \<Rightarrow> string \<Rightarrow> string" where
  "strip_chars chars s =
     rev (dropWhile (\<lambda>c. c \<in> set chars) (rev (dropWhile (\<lambda>c. c \<in> set chars) s)))"

text \<open>
  \<^verbatim>\<open>s.replace(old, new)\<close> for a one-character \<open>old\<close>: every occurrence of the
  character is replaced by the string \<open>new\<close>.
\<close>

definition replace_char :: "char \<Rightarrow> string \<Rightarrow> string \<Rightarrow> string" where
  "replace_char old new s = concat (map (\<lambda>c. if c = old then new else [c]) s)"

text \<open>
  The pattern \<^verbatim>\<open>[0-9\.,\s]+\<close> with \<^verbatim>\<open>re.fullmatch\<close>: the whole string, of at
  least one character, consists of characters of the class. \<^verbatim>\<open>[0-9]\<close> is the ten
  ASCII digits. \<^verbatim>\<open>\s\<close> in a \<^verbatim>\<open>str\<close> pattern is Unicode whitespace, which below 256
  is: tab, line feed, vertical tab, form feed, carriage return, the four separators
  0x1C to 0x1F, space, next line (0x85) and no-break space (0xA0).
\<close>

definition is_digit :: "char \<Rightarrow> bool" where
  "is_digit c = (c \<in> set ''0123456789'')"

definition is_space :: "char \<Rightarrow> bool" where
  "is_space c = (c \<in> set [CHR 0x09, CHR 0x0A, CHR 0x0B, CHR 0x0C, CHR 0x0D,
                            CHR 0x1C, CHR 0x1D, CHR 0x1E, CHR 0x1F, CHR 0x20,
                            CHR 0x85, CHR 0xA0])"

definition numeric_char :: "char \<Rightarrow> bool" where
  "numeric_char c = (is_digit c \<or> c = CHR ''.'' \<or> c = CHR '','' \<or> is_space c)"

definition fullmatch_numeric :: "string \<Rightarrow> bool" where
  "fullmatch_numeric v = (v \<noteq> [] \<and> list_all numeric_char v)"

text \<open>
  The decimal rendering of a count in the f-string \<^verbatim>\<open>f"{c}_{cnt}"\<close>.
\<close>

fun str_nat :: "nat \<Rightarrow> string" where
  "str_nat n = (if n < 10 then [''0123456789'' ! n]
                else str_nat (n div 10) @ [''0123456789'' ! (n mod 10)])"

declare str_nat.simps [simp del]

section \<open>Parsing a numeric string\<close>

text \<open>
  \<^verbatim>\<open>pd.to_numeric(v_num, errors="coerce")\<close> is a call into pandas. On a string it runs
  pandas' string-to-double scanner and, with \<^verbatim>\<open>errors="coerce"\<close>, returns NaN where
  the scanner rejects the string instead of raising. The scanner skips leading ASCII
  whitespace, reads a run of digits, then an optional period followed by a run of
  digits, rejects the string if it has read no digit at all, skips trailing ASCII
  whitespace, and rejects the string unless it has reached its end. There is no
  thousands separator: a comma stops the scan. \<open>to_numeric\<close> follows the scanner on the
  strings \<^verbatim>\<open>_clean_cell\<close> can pass to it, which hold digits, periods, commas and
  whitespace other than the space; a sign, an exponent and the literals for infinity
  and NaN cannot occur in them and are left out. \<open>None\<close> stands for NaN.
\<close>

definition isspace_ascii :: "char \<Rightarrow> bool" where
  "isspace_ascii c = (c \<in> set [CHR 0x20, CHR 0x09, CHR 0x0A, CHR 0x0B, CHR 0x0C, CHR 0x0D])"

definition digit_val :: "char \<Rightarrow> nat" where
  "digit_val c = of_char c - 48"

definition digits_val :: "string \<Rightarrow> nat" where
  "digits_val ds = foldl (\<lambda>n c. 10 * n + digit_val c) 0 ds"

definition to_numeric :: "string \<Rightarrow> rat option" where
  "to_numeric s =
     (let p = dropWhile isspace_ascii s;
          ip = takeWhile is_digit p;
          p = dropWhile is_digit p;
          fp = (case p of [] \<Rightarrow> [] | c # t \<Rightarrow> if c = CHR ''.'' then takeWhile is_digit t else []);
          p = (case p of [] \<Rightarrow> [] | c # t \<Rightarrow> if c = CHR ''.'' then dropWhile is_digit t else p);
          p = dropWhile isspace_ascii p
      in if ip = [] \<and> fp = [] then None
         else if p \<noteq> [] then None
         else Some (of_nat (digits_val ip) + of_nat (digits_val fp) / 10 ^ length fp))"

section \<open>The cell cleaner\<close>

text \<open>
  \<^verbatim>\<open>
  def _clean_cell(val, cast_numeric):
      if not isinstance(val, str):
          return val
      v = val.strip(" '")
      if re.fullmatch(r"[0-9\.,\s]+", v):
          v_num = v.replace(" ", "")
          if cast_numeric:
              if "," in v_num and "." not in v_num:
                  v_num = v_num.replace(",", ".")
              return pd.to_numeric(v_num, errors="coerce")
          return v_num
      return v
  \<close>
  The character \<open>CHR 0x27\<close> is the single quote.
\<close>

fun clean_cell :: "cell \<Rightarrow> bool \<Rightarrow> cell" where
  "clean_cell (Textual val) cast_numeric =
     (let v = strip_chars [CHR '' '', CHR 0x27] val in
      if fullmatch_numeric v then
        (let v_num = replace_char (CHR '' '') [] v in
         if cast_numeric then
           (let v_num = (if CHR '','' \<in> set v_num \<and> CHR ''.'' \<notin> set v_num
                         then replace_char (CHR '','') ''.'' v_num else v_num)
            in case to_numeric v_num of None \<Rightarrow> Missing | Some x \<Rightarrow> Numeric x)
         else Textual v_num)
      else Textual v)"
| "clean_cell val cast_numeric = val"

section \<open>The header loop\<close>

text \<open>
  \<^verbatim>\<open>
  cols_raw = X.columns.astype(str).str.strip(" '")
  seen, cols_clean = {}, []
  for c in cols_raw:
      cnt = seen.get(c, 0)
      cols_clean.append(f"{c}_{cnt}" if cnt else c)
      seen[c] = cnt + 1
  X.columns = cols_clean
  \<close>
  The new column names depend on the old column names only. The dictionary \<open>seen\<close> is a
  map from names to counts, and the loop is a recursion over the names still to be
  visited that carries \<open>seen\<close> and the list \<open>cols_clean\<close> built so far.
  \<open>transform_columns\<close> gives the column names of the table that
  \<^verbatim>\<open>LimpiarComillas.transform\<close> returns, from the column names of its input.
\<close>

definition cols_raw :: "string list \<Rightarrow> string list" where
  "cols_raw columns = map (strip_chars [CHR '' '', CHR 0x27]) columns"

fun cols_clean_loop :: "(string \<rightharpoonup> nat) \<Rightarrow> string list \<Rightarrow> string list \<Rightarrow> string list" where
  "cols_clean_loop seen cols_clean [] = cols_clean"
| "cols_clean_loop seen cols_clean (c # cs) =
     (let cnt = (case seen c of None \<Rightarrow> 0 | Some n \<Rightarrow> n)
      in cols_clean_loop (seen(c \<mapsto> cnt + 1))
           (cols_clean @ [if cnt \<noteq> 0 then c @ ''_'' @ str_nat cnt else c]) cs)"

definition transform_columns :: "string list \<Rightarrow> string list" where
  "transform_columns columns = cols_clean_loop Map.empty [] (cols_raw columns)"

section \<open>Facts about the string primitives\<close>

lemma replace_char_filter: "replace_char old [] s = filter (\<lambda>c. c \<noteq> old) s"
  by (induction s) (simp_all add: replace_char_def)

lemma replace_char_map: "replace_char old [new] s = map (\<lambda>c. if c = old then new else c) s"
  by (induction s) (simp_all add: replace_char_def)

lemma strip_chars_Nil:
  assumes "set s \<subseteq> set chars"
  shows "strip_chars chars s = []"
proof -
  have "dropWhile (\<lambda>c. c \<in> set chars) s = []"
    using assms by (auto simp: dropWhile_eq_Nil_conv)
  then show ?thesis by (simp add: strip_chars_def del: dropWhile_eq_Nil_conv)
qed

lemma strip_chars_hd:
  assumes "strip_chars chars s \<noteq> []"
  shows "hd (strip_chars chars s) \<notin> set chars"
proof -
  let ?P = "\<lambda>c. c \<in> set chars"
  let ?d = "dropWhile ?P s"
  have dne: "?d \<noteq> []"
  proof
    assume "?d = []"
    then have "strip_chars chars s = []"
      by (simp add: strip_chars_def del: dropWhile_eq_Nil_conv)
    with assms show False by simp
  qed
  then obtain x xs where d: "?d = x # xs" by (cases ?d) simp_all
  from hd_dropWhile [of ?P s, OF dne] d have x: "x \<notin> set chars" by simp
  have "strip_chars chars s = rev (dropWhile ?P (rev xs @ [x]))"
    by (simp add: strip_chars_def d del: dropWhile_eq_Nil_conv)
  also have "\<dots> = rev (dropWhile ?P (rev xs) @ [x])"
    using x by (simp add: dropWhile_append)
  finally show ?thesis using x by simp
qed

lemma strip_chars_last:
  assumes "strip_chars chars s \<noteq> []"
  shows "last (strip_chars chars s) \<notin> set chars"
proof -
  let ?P = "\<lambda>c. c \<in> set chars"
  let ?r = "dropWhile ?P (rev (dropWhile ?P s))"
  from assms have rne: "?r \<noteq> []" by (simp add: strip_chars_def del: dropWhile_eq_Nil_conv)
  from hd_dropWhile [of ?P, OF rne] have "hd ?r \<notin> set chars" .
  moreover have "last (strip_chars chars s) = hd ?r"
    using rne by (simp add: strip_chars_def last_rev del: dropWhile_eq_Nil_conv)
  ultimately show ?thesis by simp
qed

lemma strip_chars_id:
  assumes "s = [] \<or> (hd s \<notin> set chars \<and> last s \<notin> set chars)"
  shows "strip_chars chars s = s"
proof (cases s)
  case Nil
  then show ?thesis by (simp add: strip_chars_def)
next
  case (Cons x xs)
  with assms have x: "x \<notin> set chars" and l: "last s \<notin> set chars" by auto
  have a: "dropWhile (\<lambda>c. c \<in> set chars) s = s" using Cons x by simp
  have sne: "s \<noteq> []" using Cons by simp
  then have "rev s \<noteq> []" by simp
  moreover have "hd (rev s) = last s" using sne by (simp add: hd_rev)
  then have "hd (rev s) \<notin> set chars" using l by simp
  ultimately have b: "dropWhile (\<lambda>c. c \<in> set chars) (rev s) = rev s"
    by (cases "rev s") simp_all
  show ?thesis unfolding strip_chars_def a b by simp
qed

lemma strip_chars_set: "set (strip_chars chars s) \<subseteq> set s"
proof
  fix x assume "x \<in> set (strip_chars chars s)"
  then have "x \<in> set (dropWhile (\<lambda>c. c \<in> set chars) (rev (dropWhile (\<lambda>c. c \<in> set chars) s)))"
    by (simp add: strip_chars_def)
  then have "x \<in> set (rev (dropWhile (\<lambda>c. c \<in> set chars) s))" by (rule set_dropWhileD)
  then have "x \<in> set (dropWhile (\<lambda>c. c \<in> set chars) s)" by simp
  then show "x \<in> set s" by (rule set_dropWhileD)
qed

text \<open>
  \<open>str_nat\<close> writes a number in decimal: reading its digits back gives the number.
\<close>

lemma digit_val_nth: "d < 10 \<Longrightarrow> digit_val (''0123456789'' ! d) = d"
proof -
  assume "d < 10"
  then consider "d = 0" | "d = 1" | "d = 2" | "d = 3" | "d = 4"
    | "d = 5" | "d = 6" | "d = 7" | "d = 8" | "d = 9"
    by (fastforce simp: numeral_eq_Suc less_Suc_eq)
  then show ?thesis by cases (simp_all add: digit_val_def)
qed

lemma digits_val_snoc: "digits_val (ds @ [c]) = 10 * digits_val ds + digit_val c"
  by (simp add: digits_val_def)

lemma digits_val_str_nat: "digits_val (str_nat n) = n"
proof (induction n rule: str_nat.induct)
  case (1 n)
  show ?case
  proof (cases "n < 10")
    case True
    then show ?thesis
      by (subst str_nat.simps) (simp add: digits_val_def digit_val_nth)
  next
    case False
    with 1 have "digits_val (str_nat (n div 10)) = n div 10" by simp
    with False show ?thesis
      by (subst str_nat.simps) (simp add: digits_val_snoc digit_val_nth)
  qed
qed

lemma numeric_char_not_quote: "numeric_char c \<Longrightarrow> c \<noteq> CHR 0x27"
  by (auto simp: numeric_char_def is_digit_def is_space_def)

lemma filter_dropWhile_disjoint:
  "(\<And>c. P c \<Longrightarrow> \<not> Q c) \<Longrightarrow> filter Q (dropWhile P s) = filter Q s"
  by (induction s) auto

lemma filter_strip_chars:
  assumes "\<And>c. c \<in> set chars \<Longrightarrow> \<not> Q c"
  shows "filter Q (strip_chars chars s) = filter Q s"
proof -
  let ?P = "\<lambda>c. c \<in> set chars"
  have "filter Q (strip_chars chars s) = rev (filter Q (dropWhile ?P (rev (dropWhile ?P s))))"
    by (simp add: strip_chars_def rev_filter)
  also have "\<dots> = rev (filter Q (rev (dropWhile ?P s)))"
    using assms by (simp add: filter_dropWhile_disjoint)
  also have "\<dots> = filter Q (dropWhile ?P s)"
    by (simp add: rev_filter)
  also have "\<dots> = filter Q s"
    using assms by (simp add: filter_dropWhile_disjoint)
  finally show ?thesis .
qed

lemma clean_cell_space_free:
  assumes v: "v = strip_chars [CHR '' '', CHR 0x27] val" and m: "fullmatch_numeric v"
  defines "w \<equiv> filter (\<lambda>c. c \<noteq> CHR '' '') v"
  shows "strip_chars [CHR '' '', CHR 0x27] w = w" and "fullmatch_numeric w"
proof -
  from m have vne: "v \<noteq> []" and num: "list_all numeric_char v"
    by (simp_all add: fullmatch_numeric_def)
  from vne v strip_chars_hd [of "[CHR '' '', CHR 0x27]" val]
  have hd: "hd v \<noteq> CHR '' ''" by auto
  with vne have "hd v \<in> set w" by (cases v) (simp_all add: w_def)
  then have wne: "w \<noteq> []" by auto
  have numw: "list_all numeric_char w"
    using num by (simp add: w_def list_all_iff)
  have "\<And>c. c \<in> set w \<Longrightarrow> c \<notin> set [CHR '' '', CHR 0x27]"
    using numw numeric_char_not_quote by (auto simp: w_def list_all_iff)
  then have "hd w \<notin> set [CHR '' '', CHR 0x27]" "last w \<notin> set [CHR '' '', CHR 0x27]"
    using wne hd_in_set last_in_set by blast+
  then show "strip_chars [CHR '' '', CHR 0x27] w = w"
    by (intro strip_chars_id) simp
  show "fullmatch_numeric w"
    using wne numw by (simp add: fullmatch_numeric_def)
qed



section \<open>Facts about the numeric parser\<close>










lemma filter_sep_nonspace:
  "filter (\<lambda>c. c = CHR '','' \<or> c = CHR ''.'') (filter (\<lambda>c. c \<noteq> CHR '' '') s)
     = filter (\<lambda>c. c = CHR '','' \<or> c = CHR ''.'') s"
  by (induction s) auto

lemma filter_no_quote:
  assumes "list_all numeric_char v"
  shows "filter (\<lambda>c. c \<noteq> CHR '' '' \<and> c \<noteq> CHR 0x27) v = filter (\<lambda>c. c \<noteq> CHR '' '') v"
  using assms by (induction v) (auto dest: numeric_char_not_quote)

section \<open>Header phase\<close>

text \<open>
  C2 (code evaluated at the failing input). The header loop of
  \<^verbatim>\<open>LimpiarComillas.transform\<close> on the column names \<^verbatim>\<open>["x", "x", "x_1"]\<close>
  renames the second \<^verbatim>\<open>x\<close> to \<^verbatim>\<open>x_1\<close> and keeps the third name, which is the
  first occurrence of its own base name, verbatim: the resulting names are not pairwise
  distinct. The same happens when the input names are pairwise distinct and two of them
  differ only in a space that is stripped, as in \<^verbatim>\<open>["x", " x", "x_1"]\<close>.
\<close>

theorem transform_columns_collision:
  "transform_columns [''x'', ''x'', ''x_1''] = [''x'', ''x_1'', ''x_1'']
   \<and> \<not> distinct (transform_columns [''x'', ''x'', ''x_1''])
   \<and> distinct [''x'', '' x'', ''x_1'']
   \<and> transform_columns [''x'', '' x'', ''x_1''] = [''x'', ''x_1'', ''x_1'']"
  by (simp add: transform_columns_def cols_raw_def strip_chars_def str_nat.simps)



text \<open>
  C6 (code evaluated at the failing input). On a table whose columns are all numeric
  neither step of \<^verbatim>\<open>pipeline_red\<close> touches a cell, and the table returned differs
  from its input in the column names only. For the names \<^verbatim>\<open>["x", "x", "x_1"]\<close> the
  first cleaning gives \<^verbatim>\<open>["x", "x_1", "x_1"]\<close> and cleaning that result again gives
  \<^verbatim>\<open>["x", "x_1", "x_1_1"]\<close>: the second cleaning changes a header.
\<close>

theorem transform_columns_not_idempotent:
  "transform_columns [''x'', ''x'', ''x_1''] = [''x'', ''x_1'', ''x_1'']
   \<and> transform_columns (transform_columns [''x'', ''x'', ''x_1'']) = [''x'', ''x_1'', ''x_1_1'']
   \<and> transform_columns (transform_columns [''x'', ''x'', ''x_1''])
       \<noteq> transform_columns [''x'', ''x'', ''x_1'']"
  by (simp add: transform_columns_def cols_raw_def strip_chars_def str_nat.simps)

section \<open>Cell phase: numeric coercion\<close>



text \<open>
  C5 (as stated, refuted). With coercion disabled the cell \<^verbatim>\<open>"3\t,5"\<close> matches the
  numeric pattern and is returned unchanged, tab included: the text kept is not the
  cell's form with its whitespace removed, which would be \<^verbatim>\<open>"3,5"\<close>.
\<close>

theorem clean_cell_cast_disabled_tab:
  "fullmatch_numeric (strip_chars [CHR '' '', CHR 0x27] [CHR ''3'', CHR 0x09, CHR '','', CHR ''5''])
   \<and> is_space (CHR 0x09)
   \<and> clean_cell (Textual [CHR ''3'', CHR 0x09, CHR '','', CHR ''5'']) False
       = Textual [CHR ''3'', CHR 0x09, CHR '','', CHR ''5'']
   \<and> filter (\<lambda>c. \<not> is_space c)
         (strip_chars [CHR '' '', CHR 0x27] [CHR ''3'', CHR 0x09, CHR '','', CHR ''5'']) = ''3,5''
   \<and> clean_cell (Textual [CHR ''3'', CHR 0x09, CHR '','', CHR ''5'']) False \<noteq> Textual ''3,5''"
  by code_simp

text \<open>
  C5 (amended). With coercion disabled, every textual cell whose stripped value fully
  matches the numeric pattern is kept as text: the stripped value with its space
  characters removed, which is the original cell with every space and single-quote
  character deleted and every other character, a tab included, kept in place. Its commas
  and periods are those of the original cell, in the same order, and no comma is turned
  into a period. The cell \<^verbatim>\<open>"' 1 234,56 '"\<close> becomes the text \<^verbatim>\<open>"1234,56"\<close> with
  coercion disabled and the number 1234.56 with coercion enabled.
\<close>

theorem clean_cell_cast_disabled:
  "(fullmatch_numeric (strip_chars [CHR '' '', CHR 0x27] val) \<longrightarrow>
      clean_cell (Textual val) False
        = Textual (filter (\<lambda>c. c \<noteq> CHR '' '') (strip_chars [CHR '' '', CHR 0x27] val))
    \<and> clean_cell (Textual val) False
        = Textual (filter (\<lambda>c. c \<noteq> CHR '' '' \<and> c \<noteq> CHR 0x27) val)
    \<and> (\<forall>t. clean_cell (Textual val) False = Textual t \<longrightarrow>
           filter (\<lambda>c. c = CHR '','' \<or> c = CHR ''.'') t
             = filter (\<lambda>c. c = CHR '','' \<or> c = CHR ''.'') val))
   \<and> clean_cell (Textual (CHR 0x27 # '' 1 234,56 '' @ [CHR 0x27])) False = Textual ''1234,56''
   \<and> clean_cell (Textual (CHR 0x27 # '' 1 234,56 '' @ [CHR 0x27])) True = Numeric (123456 / 100)"
proof -
  let ?sep = "\<lambda>c. c = CHR '','' \<or> c = CHR ''.''"
  let ?keep = "\<lambda>c. c \<noteq> CHR '' '' \<and> c \<noteq> CHR 0x27"
  let ?v = "strip_chars [CHR '' '', CHR 0x27] val"
  let ?w = "filter (\<lambda>c. c \<noteq> CHR '' '') ?v"
  have a: "clean_cell (Textual val) False = Textual ?w" if "fullmatch_numeric ?v"
    using that by (simp add: Let_def replace_char_filter)
  have k: "?w = filter ?keep val" if m: "fullmatch_numeric ?v"
  proof -
    from m have "list_all numeric_char ?v" by (simp add: fullmatch_numeric_def)
    then have "?w = filter ?keep ?v" by (rule filter_no_quote [symmetric])
    also have "\<dots> = filter ?keep val" by (rule filter_strip_chars) auto
    finally show ?thesis .
  qed
  have "filter ?sep ?w = filter ?sep ?v" by (rule filter_sep_nonspace)
  also have "\<dots> = filter ?sep val" by (rule filter_strip_chars) auto
  finally have b: "filter ?sep ?w = filter ?sep val" .
  have c: "clean_cell (Textual (CHR 0x27 # '' 1 234,56 '' @ [CHR 0x27])) False = Textual ''1234,56''"
    by code_simp
  have d: "clean_cell (Textual (CHR 0x27 # '' 1 234,56 '' @ [CHR 0x27])) True = Numeric (123456 / 100)"
    by code_simp
  show ?thesis
  proof (intro conjI impI allI)
    assume m: "fullmatch_numeric ?v"
    show "clean_cell (Textual val) False = Textual ?w" by (rule a [OF m])
    show "clean_cell (Textual val) False = Textual (filter ?keep val)"
      using a [OF m] k [OF m] by simp
    fix t assume "clean_cell (Textual val) False = Textual t"
    with a [OF m] have "t = ?w" by simp
    with b show "filter ?sep t = filter ?sep val" by simp
  qed (rule c d)+
qed

theorem clean_cell_cast_disabled_witness:
  "fullmatch_numeric (strip_chars [CHR '' '', CHR 0x27] '' 7 000.5'')
   \<and> clean_cell (Textual '' 7 000.5'') False = Textual ''7000.5''"
proof -
  have a: "fullmatch_numeric (strip_chars [CHR '' '', CHR 0x27] '' 7 000.5'')"
    by code_simp
  have b: "filter (\<lambda>c. c \<noteq> CHR '' '') (strip_chars [CHR '' '', CHR 0x27] '' 7 000.5'') = ''7000.5''"
    by code_simp
  from clean_cell_cast_disabled [of "'' 7 000.5''"] a
  have "clean_cell (Textual '' 7 000.5'') False
      = Textual (filter (\<lambda>c. c \<noteq> CHR '' '') (strip_chars [CHR '' '', CHR 0x27] '' 7 000.5''))"
    by blast
  with a b show ?thesis by (simp only: simp_thms)
qed

section \<open>Cell phase: removal of inner spaces\<close>

text \<open>
  C4 (as stated, refuted). The pattern of \<^verbatim>\<open>_clean_cell\<close> admits every whitespace
  character, but \<^verbatim>\<open>v.replace(" ", "")\<close> removes the space character only. The cell
  \<^verbatim>\<open>"1\t2"\<close> matches the pattern and its tab is still there afterwards: with coercion
  disabled the text \<^verbatim>\<open>"1\t2"\<close> is returned, with coercion enabled the tab makes the
  parse fail.
\<close>

theorem clean_cell_keeps_tab:
  "fullmatch_numeric (strip_chars [CHR '' '', CHR 0x27] [CHR ''1'', CHR 0x09, CHR ''2''])
   \<and> is_space (CHR 0x09)
   \<and> clean_cell (Textual [CHR ''1'', CHR 0x09, CHR ''2'']) False
       = Textual [CHR ''1'', CHR 0x09, CHR ''2'']
   \<and> clean_cell (Textual [CHR ''1'', CHR 0x09, CHR ''2'']) True = Missing"
  by code_simp

text \<open>
  C4 (amended). Let \<open>v\<close> be the cell text with leading and trailing space and
  single-quote characters stripped. If \<open>v\<close> fully matches the numeric pattern, every
  space character of \<open>v\<close> (and no other character) is removed before anything else
  happens: with coercion disabled the result is that space-free text, and with coercion
  enabled the result is the one obtained from the space-free text. If \<open>v\<close> does not
  fully match the pattern, the result is the text \<open>v\<close> itself, for either value of the
  flag.
\<close>

theorem clean_cell_removes_spaces:
  assumes v: "v = strip_chars [CHR '' '', CHR 0x27] val"
  shows "(fullmatch_numeric v \<longrightarrow>
            clean_cell (Textual val) False = Textual (filter (\<lambda>c. c \<noteq> CHR '' '') v)
          \<and> clean_cell (Textual val) True
              = clean_cell (Textual (filter (\<lambda>c. c \<noteq> CHR '' '') v)) True)
       \<and> (\<not> fullmatch_numeric v \<longrightarrow> clean_cell (Textual val) cast_numeric = Textual v)"
proof (cases "fullmatch_numeric v")
  case True
  let ?w = "filter (\<lambda>c. c \<noteq> CHR '' '') v"
  note sf = clean_cell_space_free [OF v True]
  have a: "clean_cell (Textual val) False = Textual ?w"
    using True v by (simp add: replace_char_filter)
  have b: "clean_cell (Textual val) True = clean_cell (Textual ?w) True"
    using True v sf by (simp add: replace_char_filter Let_def)
  from a b True show ?thesis by simp
next
  case False
  then show ?thesis using v by simp
qed

theorem clean_cell_removes_spaces_witness:
  "fullmatch_numeric (strip_chars [CHR '' '', CHR 0x27] '' 1 234,56 '')
   \<and> clean_cell (Textual '' 1 234,56 '') False = Textual ''1234,56''
   \<and> \<not> fullmatch_numeric (strip_chars [CHR '' '', CHR 0x27] '' 12 a '')
   \<and> clean_cell (Textual '' 12 a '') True = Textual ''12 a''"
  using clean_cell_removes_spaces [of "strip_chars [CHR '' '', CHR 0x27] '' 1 234,56 ''" "'' 1 234,56 ''" True]
        clean_cell_removes_spaces [of "strip_chars [CHR '' '', CHR 0x27] '' 12 a ''" "'' 12 a ''" True]
  by (simp add: strip_chars_def fullmatch_numeric_def numeric_char_def is_digit_def is_space_def)

section \<open>Cell phase: cells of quotes and blanks\<close>

text \<open>
  C10 (as stated, refuted). \<^verbatim>\<open>val.strip(" '")\<close> strips the space and the
  single-quote character only. A cell holding one tab is whitespace only, but it is not
  stripped, it matches the numeric pattern, and the cleaner returns a missing value when
  coercion is enabled and the unchanged text \<^verbatim>\<open>"\t"\<close> when it is disabled, not the
  empty string.
\<close>

theorem clean_cell_tab_only:
  "list_all (\<lambda>c. c = CHR 0x27 \<or> is_space c) [CHR 0x09]
   \<and> clean_cell (Textual [CHR 0x09]) True = Missing
   \<and> clean_cell (Textual [CHR 0x09]) False = Textual [CHR 0x09]"
  by (simp add: strip_chars_def fullmatch_numeric_def numeric_char_def is_digit_def
      is_space_def replace_char_def to_numeric_def isspace_ascii_def)

text \<open>
  C10 (amended). For every textual cell consisting only of single-quote characters
  and space characters, the cell cleaner returns the empty string as a kept textual
  value, for either value of the coercion flag.
\<close>

theorem clean_cell_quotes_spaces:
  assumes "set val \<subseteq> {CHR '' '', CHR 0x27}"
  shows "clean_cell (Textual val) cast_numeric = Textual []"
proof -
  have "strip_chars [CHR '' '', CHR 0x27] val = []"
    using assms by (intro strip_chars_Nil) simp
  then show ?thesis by (simp add: fullmatch_numeric_def)
qed

theorem clean_cell_quotes_spaces_witness:
  "set [CHR 0x27, CHR 0x27] \<subseteq> {CHR '' '', CHR 0x27}
   \<and> clean_cell (Textual [CHR 0x27, CHR 0x27]) True = Textual []
   \<and> clean_cell (Textual ''  '') False = Textual []"
  using clean_cell_quotes_spaces [of "[CHR 0x27, CHR 0x27]" True]
        clean_cell_quotes_spaces [of "''  ''" False]
  by simp

end
